theory Spec2Isabelle
  imports Complex_Main "HOL-Library.Log_Nat"
begin

section \<open>Values and failures\<close>

text \<open>
  The engine works on Python floats. A float is either a finite number or one of the
  three special values; finite numbers are modelled as reals with exact arithmetic, so
  every statement below is about the algorithm in exact arithmetic and says nothing
  about binary rounding.
\<close>

datatype pyfloat = Fin real | PInf | NInf | NaN

datatype py_error = ValueError | ZeroDivisionError | IndexError | OverflowError | OtherError

type_synonym 'a result = "py_error + 'a"

definition and_then :: "'a result \<Rightarrow> ('a \<Rightarrow> 'b result) \<Rightarrow> 'b result" where
  "and_then m f = (case m of Inl e \<Rightarrow> Inl e | Inr v \<Rightarrow> f v)"

text \<open>\<^verbatim>\<open>a / b\<close> raises ZeroDivisionError on a zero divisor.\<close>

definition py_div :: "real \<Rightarrow> real \<Rightarrow> real result" where
  "py_div a b = (if b = 0 then Inl ZeroDivisionError else Inr (a / b))"

text \<open>\<^verbatim>\<open>math.sqrt\<close> and \<^verbatim>\<open>math.log\<close> raise ValueError outside their domain.\<close>

definition py_sqrt :: "real \<Rightarrow> real result" where
  "py_sqrt v = (if v < 0 then Inl ValueError else Inr (sqrt v))"

definition py_log :: "real \<Rightarrow> real result" where
  "py_log v = (if v \<le> 0 then Inl ValueError else Inr (ln v))"

text \<open>\<^verbatim>\<open>xs[0]\<close> raises IndexError on an empty list.\<close>

definition py_first :: "'a list \<Rightarrow> 'a result" where
  "py_first xs = (case xs of [] \<Rightarrow> Inl IndexError | v # _ \<Rightarrow> Inr v)"

text \<open>A list comprehension whose body may raise: the first failure wins.\<close>

fun map_result :: "('a \<Rightarrow> 'b result) \<Rightarrow> 'a list \<Rightarrow> 'b list result" where
  "map_result f [] = Inr []"
| "map_result f (v # vs) =
     (case f v of Inl e \<Rightarrow> Inl e
      | Inr w \<Rightarrow> (case map_result f vs of Inl e \<Rightarrow> Inl e | Inr ws \<Rightarrow> Inr (w # ws)))"

text \<open>
  A dict is an association list in insertion order: assigning to a present key keeps
  its position, assigning to a new key appends. \<^verbatim>\<open>d.get(k, dflt)\<close> is \<open>dict_get\<close>.
\<close>

fun dict_set :: "('k \<times> 'v) list \<Rightarrow> 'k \<Rightarrow> 'v \<Rightarrow> ('k \<times> 'v) list" where
  "dict_set [] k v = [(k, v)]"
| "dict_set ((k', v') # d) k v = (if k' = k then (k, v) # d else (k', v') # dict_set d k v)"

definition dict_get :: "('k \<times> 'v) list \<Rightarrow> 'k \<Rightarrow> 'v \<Rightarrow> 'v" where
  "dict_get d k dflt = (case map_of d k of Some v \<Rightarrow> v | None \<Rightarrow> dflt)"

text \<open>
  \<^verbatim>\<open>round(v, nd)\<close> on a float: the nearest multiple of \<open>10^-nd\<close>, a tie going to the even
  neighbour.
\<close>

definition py_round :: "real \<Rightarrow> nat \<Rightarrow> real" where
  "py_round v nd =
     (let s = v * 10 ^ nd; f = \<lfloor>s\<rfloor>; d = s - of_int f
      in of_int (if d < 1 / 2 then f else if 1 / 2 < d then f + 1
                 else if even f then f else f + 1) / 10 ^ nd)"

section \<open>Stability score\<close>

text \<open>
  \<^verbatim>\<open>
  def calc_stability(self, total_invalid, total_points, anomalies, danger):
      data_quality = ((total_points - total_invalid) / total_points * 100) if total_points > 0 else 0
      anomaly_ratio = (anomalies / total_points * 100) if total_points > 0 else 0
      danger_score = {'LOW': 100, 'HIGH': 50, 'CRITICAL': 0}.get(danger, 75)
      stability = (data_quality * 0.5 + (100 - anomaly_ratio) * 0.3 + danger_score * 0.2)
      return round(stability, 2)
  \<close>
  The counts are Python ints, the rating a string.
\<close>

definition calc_stability :: "int \<Rightarrow> int \<Rightarrow> int \<Rightarrow> string \<Rightarrow> real" where
  "calc_stability total_invalid total_points anomalies danger =
     (let data_quality =
            (if total_points > 0
             then real_of_int (total_points - total_invalid) / real_of_int total_points * 100
             else 0);
          anomaly_ratio =
            (if total_points > 0
             then real_of_int anomalies / real_of_int total_points * 100
             else 0);
          danger_score =
            dict_get [(''LOW'', 100), (''HIGH'', 50), (''CRITICAL'', 0)] danger (75 :: real);
          stability =
            data_quality * (5 / 10) + (100 - anomaly_ratio) * (3 / 10) + danger_score * (2 / 10)
      in py_round stability 2)"



section \<open>Tokenizer and cleaner\<close>

text \<open>
  Text is a list of characters, a character being a code point below 256. The
  whitespace of \<^verbatim>\<open>str.split\<close> and \<^verbatim>\<open>str.strip\<close> in that range: tab to carriage return,
  the four separators 28 to 31, space, 133 and 160.
\<close>

definition is_space :: "char \<Rightarrow> bool" where
  "is_space ch =
     (let n = (of_char ch :: nat)
      in (9 \<le> n \<and> n \<le> 13) \<or> (28 \<le> n \<and> n \<le> 32) \<or> n = 133 \<or> n = 160)"

definition strip :: "string \<Rightarrow> string" where
  "strip s = rev (dropWhile is_space (rev (dropWhile is_space s)))"

definition remove_char :: "char \<Rightarrow> string \<Rightarrow> string" where
  "remove_char ch s = filter (\<lambda>d. d \<noteq> ch) s"

definition replace_char :: "char \<Rightarrow> char \<Rightarrow> string \<Rightarrow> string" where
  "replace_char ch new s = map (\<lambda>d. if d = ch then new else d) s"

text \<open>\<^verbatim>\<open>str.split()\<close>: the maximal runs of characters that are not whitespace.\<close>

fun split_from :: "string \<Rightarrow> string \<Rightarrow> string list" where
  "split_from cur [] = (if cur = [] then [] else [cur])"
| "split_from cur (ch # rest) =
     (if is_space ch
      then (if cur = [] then split_from [] rest else cur # split_from [] rest)
      else split_from (cur @ [ch]) rest)"

definition split :: "string \<Rightarrow> string list" where
  "split s = split_from [] s"

text \<open>
  \<^verbatim>\<open>str.upper\<close> on the ASCII letters; no other character below 256 becomes a character of
  the missing-value markers.
\<close>

definition upper_char :: "char \<Rightarrow> char" where
  "upper_char ch =
     (let n = (of_char ch :: nat) in if 97 \<le> n \<and> n \<le> 122 then char_of (n - 32) else ch)"

definition upper :: "string \<Rightarrow> string" where
  "upper s = map upper_char s"

text \<open>
  \<^verbatim>\<open>
  for p in parts:
      p = p.strip()
      if not p:
          invalid_count += 1
          continue
      if p.upper() in ['NULL', 'NA', 'NAN', 'NONE', 'N/A', '-']:
          invalid_count += 1
          continue
      try:
          val = float(p)
          if math.isnan(val) or math.isinf(val):
              invalid_count += 1
          else:
              vals.append(val)
      except ValueError:
          invalid_count += 1
  \<close>
  The builtin \<^verbatim>\<open>float\<close> is the parameter \<open>to_float\<close>: it returns a float or raises. A
  ValueError is caught by the inner handler; any other failure leaves the loop.
\<close>

fun parse_loop ::
  "(string \<Rightarrow> pyfloat result) \<Rightarrow> string list \<Rightarrow> real list \<Rightarrow> int \<Rightarrow> (real list \<times> int) result"
where
  "parse_loop to_float [] vals invalid_count = Inr (vals, invalid_count)"
| "parse_loop to_float (p0 # parts) vals invalid_count =
     (let p = strip p0 in
      if p = [] then parse_loop to_float parts vals (invalid_count + 1)
      else if upper p \<in> set [''NULL'', ''NA'', ''NAN'', ''NONE'', ''N/A'', ''-'']
      then parse_loop to_float parts vals (invalid_count + 1)
      else (case to_float p of
              Inr (Fin v) \<Rightarrow> parse_loop to_float parts (vals @ [v]) invalid_count
            | Inr _ \<Rightarrow> parse_loop to_float parts vals (invalid_count + 1)
            | Inl ValueError \<Rightarrow> parse_loop to_float parts vals (invalid_count + 1)
            | Inl e \<Rightarrow> Inl e))"

text \<open>
  \<^verbatim>\<open>
  raw = raw.strip().replace('[','').replace(']','')
  vals = []
  invalid_count = 0
  raw = raw.replace(',', ' ')
  parts = raw.split()
  \<close>
\<close>

definition parse_body :: "(string \<Rightarrow> pyfloat result) \<Rightarrow> string \<Rightarrow> (real list \<times> int) result" where
  "parse_body to_float raw =
     (let raw1 = remove_char CHR '']'' (remove_char CHR ''['' (strip raw));
          raw2 = replace_char CHR '','' CHR '' '' raw1;
          parts = split raw2
      in parse_loop to_float parts [] 0)"

text \<open>
  \<^verbatim>\<open>
  try:
      ...
      return vals if vals else [0], invalid_count
  except:
      return [0], 1
  \<close>
\<close>

definition parse :: "(string \<Rightarrow> pyfloat result) \<Rightarrow> string \<Rightarrow> real list \<times> int" where
  "parse to_float raw =
     (case parse_body to_float raw of
        Inr (vals, invalid_count) \<Rightarrow> (if vals \<noteq> [] then vals else [0], invalid_count)
      | Inl e \<Rightarrow> ([0], 1))"

text \<open>
  \<^verbatim>\<open>
  def clean(self, d):
      clean, inv = [], 0
      for v in d:
          try:
              if not (math.isnan(v) or math.isinf(v) or abs(v) > 1e15):
                  clean.append(float(v))
              else:
                  inv += 1
          except:
              inv += 1
      return clean if clean else [0], inv
  \<close>
  On a float none of the three tests raises. What is kept is finite, so the cleaned
  sequence is a list of reals.
\<close>

fun isnan :: "pyfloat \<Rightarrow> bool" where
  "isnan NaN = True"
| "isnan _ = False"

fun isinf :: "pyfloat \<Rightarrow> bool" where
  "isinf PInf = True"
| "isinf NInf = True"
| "isinf _ = False"

fun abs_gt :: "pyfloat \<Rightarrow> real \<Rightarrow> bool" where
  "abs_gt (Fin v) bound = (\<bar>v\<bar> > bound)"
| "abs_gt PInf bound = True"
| "abs_gt NInf bound = True"
| "abs_gt NaN bound = False"

fun clean_loop :: "pyfloat list \<Rightarrow> real list \<Rightarrow> int \<Rightarrow> real list \<times> int" where
  "clean_loop [] cl inv_c = (cl, inv_c)"
| "clean_loop (v # d) cl inv_c =
     (if \<not> (isnan v \<or> isinf v \<or> abs_gt v (10 ^ 15))
      then (case v of Fin w \<Rightarrow> clean_loop d (cl @ [w]) inv_c | _ \<Rightarrow> clean_loop d cl (inv_c + 1))
      else clean_loop d cl (inv_c + 1))"

definition clean :: "pyfloat list \<Rightarrow> real list \<times> int" where
  "clean d = (case clean_loop d [] 0 of (cl, inv_c) \<Rightarrow> (if cl \<noteq> [] then cl else [0], inv_c))"

section \<open>Model fitter\<close>

text \<open>
  \<^verbatim>\<open>
  def fit(self, x, y):
      n, mx, my = len(x), sum(x)/len(x), sum(y)/len(y)
      num = sum((x[i]-mx)*(y[i]-my) for i in range(n))
      den = sum((x[i]-mx)**2 for i in range(n))
      a = num/den if abs(den) > 1e-10 else 0
      b = my - a*mx
      pred = [a*xi+b for xi in x]
      ss_tot = sum((yi-my)**2 for yi in y)
      ss_res = sum((yi-pi)**2 for yi, pi in zip(y, pred))
      r2 = 1-(ss_res/ss_tot) if ss_tot > 1e-10 else 0.5
      return a, b, max(0, r2)
  \<close>
  The two means divide by a length, which may be zero; \<^verbatim>\<open>y[i]\<close> is out of range when
  \<^verbatim>\<open>y\<close> is shorter than \<^verbatim>\<open>x\<close>.
\<close>

definition fit :: "real list \<Rightarrow> real list \<Rightarrow> (real \<times> real \<times> real) result" where
  "fit x y =
     (let n = length x in
      and_then (py_div (sum_list x) (real (length x))) (\<lambda>mx.
      and_then (py_div (sum_list y) (real (length y))) (\<lambda>my.
      if length y < n then Inl IndexError
      else
        let num = (\<Sum>i\<leftarrow>[0..<n]. (x ! i - mx) * (y ! i - my));
            den = (\<Sum>i\<leftarrow>[0..<n]. (x ! i - mx) ^ 2);
            a = (if \<bar>den\<bar> > 1 / 10 ^ 10 then num / den else 0);
            b = my - a * mx;
            pred = map (\<lambda>xi. a * xi + b) x;
            ss_tot = (\<Sum>yi\<leftarrow>y. (yi - my) ^ 2);
            ss_res = (\<Sum>(yi, p_i)\<leftarrow>zip y pred. (yi - p_i) ^ 2);
            r2 = (if ss_tot > 1 / 10 ^ 10 then 1 - ss_res / ss_tot else 5 / 10)
        in Inr (a, b, max 0 r2))))"

text \<open>\<^verbatim>\<open>[v[i+1]-v[i] for i in range(len(v)-1)]\<close>\<close>

definition diffs :: "real list \<Rightarrow> real list" where
  "diffs v = map (\<lambda>i. v ! (i + 1) - v ! i) [0..<length v - 1]"

text \<open>
  The QUAD candidate, the body of the second \<^verbatim>\<open>try\<close> of \<^verbatim>\<open>analyze\<close>; \<open>None\<close> when the
  length test fails and nothing is recorded.
  \<^verbatim>\<open>
  if len(y) > 2:
      d1 = [y[i+1]-y[i] for i in range(len(y)-1)]
      d2 = [d1[i+1]-d1[i] for i in range(len(d1)-1)]
      aq = sum(d2)/(2*len(d2)) if d2 else 0
      bq = (d1[0] if d1 else 0) - aq
      cq = y[0]
      pred = [aq*i*i+bq*i+cq for i in x]
      my = sum(y)/len(y)
      ss_tot = sum((yi-my)**2 for yi in y)
      ss_res = sum((yi-pi)**2 for yi,pi in zip(y,pred))
      r2q = 1-(ss_res/ss_tot) if ss_tot > 1e-10 else 0.3
      res['QUAD'] = {'r2': max(0,r2q), 'a': aq, 'b': bq, 'c': cq}
  \<close>
\<close>

definition quad_fit :: "real list \<Rightarrow> real list \<Rightarrow> (string \<times> real) list option result" where
  "quad_fit x y =
     (if length y > 2 then
        let d1 = diffs y; d2 = diffs d1 in
        and_then (if d2 \<noteq> [] then py_div (sum_list d2) (2 * real (length d2)) else Inr 0) (\<lambda>aq.
        and_then (if d1 \<noteq> [] then py_first d1 else Inr 0) (\<lambda>d10.
        let bq = d10 - aq in
        and_then (py_first y) (\<lambda>cq.
        let pred = map (\<lambda>i. aq * i * i + bq * i + cq) x in
        and_then (py_div (sum_list y) (real (length y))) (\<lambda>my.
        let ss_tot = (\<Sum>yi\<leftarrow>y. (yi - my) ^ 2);
            ss_res = (\<Sum>(yi, p_i)\<leftarrow>zip y pred. (yi - p_i) ^ 2);
            r2q = (if ss_tot > 1 / 10 ^ 10 then 1 - ss_res / ss_tot else 3 / 10)
        in Inr (Some [(''r2'', max 0 r2q), (''a'', aq), (''b'', bq), (''c'', cq)])))))
      else Inr None)"

text \<open>
  The EXP candidate, the body of the third \<^verbatim>\<open>try\<close>.
  \<^verbatim>\<open>
  if all(yi > 0 for yi in y):
      log_y = [math.log(yi) for yi in y]
      ae, be, re = self.fit(x, log_y)
      res['EXP'] = {'r2': re, 'a': math.exp(be), 'b': ae}
  \<close>
\<close>

definition exp_fit :: "real list \<Rightarrow> real list \<Rightarrow> (string \<times> real) list option result" where
  "exp_fit x y =
     (if list_all (\<lambda>yi. yi > 0) y then
        and_then (map_result py_log y) (\<lambda>log_y.
        and_then (fit x log_y) (\<lambda>(ae, be, r_e).
        Inr (Some [(''r2'', r_e), (''a'', exp be), (''b'', ae)])))
      else Inr None)"

text \<open>
  The dict \<^verbatim>\<open>res\<close> after the three \<^verbatim>\<open>try\<close> blocks: a candidate that raised is recorded as
  \<^verbatim>\<open>{'r2': -1}\<close>.
\<close>

definition analyze_res :: "real list \<Rightarrow> (string \<times> (string \<times> real) list) list" where
  "analyze_res y =
     (let x = map real [0..<length y];
          res = [];
          res = (case fit x y of
                   Inr (a, b, r2) \<Rightarrow> dict_set res ''LINEAR'' [(''r2'', r2), (''a'', a), (''b'', b)]
                 | Inl e \<Rightarrow> dict_set res ''LINEAR'' [(''r2'', - 1)]);
          res = (case quad_fit x y of
                   Inr (Some q) \<Rightarrow> dict_set res ''QUAD'' q
                 | Inr None \<Rightarrow> res
                 | Inl e \<Rightarrow> dict_set res ''QUAD'' [(''r2'', - 1)]);
          res = (case exp_fit x y of
                   Inr (Some q) \<Rightarrow> dict_set res ''EXP'' q
                 | Inr None \<Rightarrow> res
                 | Inl e \<Rightarrow> dict_set res ''EXP'' [(''r2'', - 1)])
      in res)"

text \<open>
  \<^verbatim>\<open>max(items, key=...)\<close>: the first item whose key no later item exceeds; ValueError on an
  empty sequence.
\<close>

fun max_loop :: "('a \<Rightarrow> real) \<Rightarrow> 'a \<Rightarrow> 'a list \<Rightarrow> 'a" where
  "max_loop key best [] = best"
| "max_loop key best (v # vs) = max_loop key (if key v > key best then v else best) vs"

definition py_max_key :: "('a \<Rightarrow> real) \<Rightarrow> 'a list \<Rightarrow> 'a result" where
  "py_max_key key xs = (case xs of [] \<Rightarrow> Inl ValueError | v # vs \<Rightarrow> Inr (max_loop key v vs))"

record analysis =
  pat_t :: string
  pat_r :: real
  pat_p :: "(string \<times> real) list"

text \<open>
  \<^verbatim>\<open>
  best = max(res.items(), key=lambda kv: kv[1].get('r2', -1))
  return {'t': best[0], 'r': best[1].get('r2', 0), 'p': best[1]}
  \<close>
\<close>

definition score :: "string \<times> (string \<times> real) list \<Rightarrow> real" where
  "score kv = dict_get (snd kv) ''r2'' (- 1)"

definition analyze :: "real list \<Rightarrow> analysis result" where
  "analyze y =
     and_then (py_max_key score (analyze_res y)) (\<lambda>best.
     Inr \<lparr>pat_t = fst best, pat_r = dict_get (snd best) ''r2'' 0, pat_p = snd best\<rparr>)"

section \<open>Anomaly detector\<close>

text \<open>The threshold \<^verbatim>\<open>self.z_th = 3.0\<close> set by the constructor.\<close>

definition z_th :: real where
  "z_th = 3"

record anomaly =
  idx :: nat
  val :: real
  z :: real
  sev :: string

text \<open>
  \<^verbatim>\<open>
  for i, yi in enumerate(y):
      z = abs((yi-m)/s)
      if z > self.z_th:
          severity = "CRITICAL" if z > 5 else "HIGH"
          anomalies.append({"idx": i, "val": yi, "z": z, "sev": severity})
  \<close>
\<close>

fun anom_loop :: "real \<Rightarrow> real \<Rightarrow> (nat \<times> real) list \<Rightarrow> anomaly list \<Rightarrow> anomaly list result" where
  "anom_loop m s [] anomalies = Inr anomalies"
| "anom_loop m s ((i, yi) # rest) anomalies =
     (case py_div (yi - m) s of
        Inl e \<Rightarrow> Inl e
      | Inr q \<Rightarrow>
          (let zs = \<bar>q\<bar> in
           if zs > z_th
           then anom_loop m s rest
                  (anomalies @
                   [\<lparr>idx = i, val = yi, z = zs,
                     sev = (if zs > 5 then ''CRITICAL'' else ''HIGH'')\<rparr>])
           else anom_loop m s rest anomalies))"

text \<open>
  The body of the \<^verbatim>\<open>try\<close> of \<^verbatim>\<open>anom\<close>.
  \<^verbatim>\<open>
  if len(y) < 2:
      return 0, "LOW", []
  m = sum(y)/len(y)
  s = math.sqrt(sum((x-m)**2 for x in y)/len(y)) if len(y) > 1 else 1
  s = s if s > 1e-10 else 1
  anomalies = []
  for ...
  crit = sum(1 for a in anomalies if a["sev"] == "CRITICAL")
  danger = "CRITICAL" if crit > 0 else ("HIGH" if anomalies else "LOW")
  return len(anomalies), danger, anomalies
  \<close>
\<close>

definition anom_body :: "real list \<Rightarrow> (int \<times> string \<times> anomaly list) result" where
  "anom_body y =
     (if length y < 2 then Inr (0, ''LOW'', [])
      else
        and_then (py_div (sum_list y) (real (length y))) (\<lambda>m.
        and_then (if length y > 1
                  then and_then (py_div (\<Sum>x\<leftarrow>y. (x - m) ^ 2) (real (length y))) py_sqrt
                  else Inr 1) (\<lambda>s0.
        let s = (if s0 > 1 / 10 ^ 10 then s0 else 1) in
        and_then (anom_loop m s (enumerate 0 y) []) (\<lambda>anomalies.
        let crit = length (filter (\<lambda>a. sev a = ''CRITICAL'') anomalies);
            danger = (if crit > 0 then ''CRITICAL''
                      else if anomalies \<noteq> [] then ''HIGH'' else ''LOW'')
        in Inr (int (length anomalies), danger, anomalies)))))"

text \<open>\<^verbatim>\<open>except: return 0, "LOW", []\<close>\<close>

definition anom :: "real list \<Rightarrow> int \<times> string \<times> anomaly list" where
  "anom y = (case anom_body y of Inr v \<Rightarrow> v | Inl e \<Rightarrow> (0, ''LOW'', []))"

section \<open>Batch processor\<close>

text \<open>\<^verbatim>\<open>min\<close> and \<^verbatim>\<open>max\<close> of a list raise ValueError on an empty one.\<close>

definition py_min :: "real list \<Rightarrow> real result" where
  "py_min xs = (case xs of [] \<Rightarrow> Inl ValueError | v # vs \<Rightarrow> Inr (fold min vs v))"

definition py_max :: "real list \<Rightarrow> real result" where
  "py_max xs = (case xs of [] \<Rightarrow> Inl ValueError | v # vs \<Rightarrow> Inr (fold max vs v))"

text \<open>\<^verbatim>\<open>xs[i]\<close> for an index that is not negative.\<close>

definition py_index :: "'a list \<Rightarrow> nat \<Rightarrow> 'a result" where
  "py_index xs i = (if i < length xs then Inr (xs ! i) else Inl IndexError)"

record summary =
  bid :: int
  total :: int
  valid :: int
  invalid_parse :: int
  invalid_clean :: int
  total_invalid :: int
  mean :: real
  std :: real
  minimum :: real
  maximum :: real
  median :: real
  range_s :: real
  cv :: real
  type_s :: string
  r2 :: real
  params :: "(string \<times> real) list"
  anom_c :: int
  danger :: string
  anom_details :: "anomaly list"

text \<open>
  \<^verbatim>\<open>
  def proc(self, batch, bid, invalid_from_parse):
      clean, inv_clean = self.clean(batch)
      if not clean:
          return None
      m = sum(clean)/len(clean)
      s = math.sqrt(sum((x-m)**2 for x in clean)/len(clean))
      pat = self.analyze(clean)
      anom_c, dang, anom_details = self.anom(clean)
      total_invalid = invalid_from_parse + inv_clean
      return {
          "bid": bid, "total": len(batch), "valid": len(clean),
          "invalid_parse": invalid_from_parse,
          "invalid_clean": inv_clean,
          "total_invalid": total_invalid,
          "mean": m, "std": s, "min": min(clean), "max": max(clean),
          "median": sorted(clean)[len(clean)//2],
          "range": max(clean) - min(clean),
          "cv": (s / m * 100) if m != 0 else 0,
          "type": pat['t'], "r2": pat['r'], "params": pat['p'],
          "anom": anom_c, "danger": dang, "anom_details": anom_details
      }
  \<close>
  \<open>None\<close> is the early return; the keys \<^verbatim>\<open>min\<close>, \<^verbatim>\<open>max\<close>, \<^verbatim>\<open>range\<close>, \<^verbatim>\<open>type\<close> and \<^verbatim>\<open>anom\<close> are
  the fields \<open>minimum\<close>, \<open>maximum\<close>, \<open>range_s\<close>, \<open>type_s\<close> and \<open>anom_c\<close>.
\<close>

definition proc :: "pyfloat list \<Rightarrow> int \<Rightarrow> int \<Rightarrow> summary option result" where
  "proc batch b invalid_from_parse =
     (case clean batch of (cl, inv_clean) \<Rightarrow>
      if cl = [] then Inr None
      else
        and_then (py_div (sum_list cl) (real (length cl))) (\<lambda>m.
        and_then (and_then (py_div (\<Sum>x\<leftarrow>cl. (x - m) ^ 2) (real (length cl))) py_sqrt) (\<lambda>s.
        and_then (analyze cl) (\<lambda>pat.
        case anom cl of (an_c, dang, an_details) \<Rightarrow>
        let t_invalid = invalid_from_parse + inv_clean in
        and_then (py_min cl) (\<lambda>mn.
        and_then (py_max cl) (\<lambda>mx.
        and_then (py_index (sort cl) (length cl div 2)) (\<lambda>med.
        and_then (py_max cl) (\<lambda>mx2.
        and_then (py_min cl) (\<lambda>mn2.
        Inr (Some
          \<lparr>bid = b, total = int (length batch), valid = int (length cl),
           invalid_parse = invalid_from_parse,
           invalid_clean = inv_clean,
           total_invalid = t_invalid,
           mean = m, std = s, minimum = mn, maximum = mx,
           median = med,
           range_s = mx2 - mn2,
           cv = (if m \<noteq> 0 then s / m * 100 else 0),
           type_s = pat_t pat, r2 = pat_r pat, params = pat_p pat,
           anom_c = an_c, danger = dang, anom_details = an_details\<rparr>))))))))))"

section \<open>Auxiliary notions\<close>

text \<open>
  The coefficient of determination as \<^verbatim>\<open>fit\<close> and the QUAD candidate both compute it, with
  the constant \<open>c\<close> for the degenerate variance; used to state facts about the two.
\<close>

definition fit_r2 :: "real list \<Rightarrow> real list \<Rightarrow> real \<Rightarrow> real \<Rightarrow> real" where
  "fit_r2 y pred my c =
     (let ss_tot = (\<Sum>yi\<leftarrow>y. (yi - my) ^ 2);
          ss_res = (\<Sum>(yi, p_i)\<leftarrow>zip y pred. (yi - p_i) ^ 2)
      in max 0 (if ss_tot > 1 / 10 ^ 10 then 1 - ss_res / ss_tot else c))"

definition lin_entry :: "real list \<Rightarrow> (string \<times> real) list" where
  "lin_entry y =
     (case fit (map real [0..<length y]) y of
        Inr (a, b, q) \<Rightarrow> [(''r2'', q), (''a'', a), (''b'', b)]
      | Inl e \<Rightarrow> [(''r2'', - 1)])"

definition quad_entry :: "real list \<Rightarrow> (string \<times> real) list" where
  "quad_entry y =
     (case quad_fit (map real [0..<length y]) y of
        Inr (Some q) \<Rightarrow> q
      | _ \<Rightarrow> [(''r2'', - 1)])"

definition exp_entry :: "real list \<Rightarrow> (string \<times> real) list" where
  "exp_entry y =
     (case exp_fit (map real [0..<length y]) y of
        Inr (Some q) \<Rightarrow> q
      | _ \<Rightarrow> [(''r2'', - 1)])"






text \<open>The tokens of a raw text: what \<^verbatim>\<open>parse\<close> iterates over.\<close>

definition tokens :: "string \<Rightarrow> string list" where
  "tokens raw =
     split (replace_char CHR '','' CHR '' '' (remove_char CHR '']'' (remove_char CHR ''['' (strip raw))))"

section \<open>Properties of the stability score\<close>


text \<open>
  C2, as the code has it: with no invalid point, no anomaly and rating LOW on 100 points
  the score is 100; with every one of 100 points invalid, no anomaly and rating CRITICAL
  the score is 30, the anomaly term \<open>0.3 * (100 - 0)\<close> still counting in full.
\<close>

theorem calc_stability_examples:
  "calc_stability 0 100 0 ''LOW'' = 100 \<and> calc_stability 100 100 0 ''CRITICAL'' = 30"
  by (simp add: calc_stability_def dict_get_def py_round_def Let_def)

text \<open>
  C2 as stated fails: the score for (invalid = 100, total = 100, anomalies = 0,
  danger = CRITICAL) is not 0.
\<close>

theorem calc_stability_all_invalid_not_zero:
  "calc_stability 100 100 0 ''CRITICAL'' \<noteq> 0"
  by (simp add: calc_stability_def dict_get_def py_round_def Let_def)



section \<open>Properties of the linear fit\<close>

lemma ss_res_nonneg: "0 \<le> (\<Sum>(yi, p_i)\<leftarrow>zip y pred. (yi - p_i) ^ 2 :: real)"
  by (rule sum_list_nonneg) auto

lemma fit_r2_range:
  assumes "0 \<le> c" "c \<le> 1"
  shows "0 \<le> fit_r2 y pred my c \<and> fit_r2 y pred my c \<le> 1"
proof -
  define st where "st = (\<Sum>yi\<leftarrow>y. (yi - my) ^ 2)"
  define sr where "sr = (\<Sum>(yi, p_i)\<leftarrow>zip y pred. (yi - p_i) ^ 2)"
  have sr: "0 \<le> sr" unfolding sr_def by (rule ss_res_nonneg)
  have eq: "fit_r2 y pred my c = max 0 (if st > 1 / 10 ^ 10 then 1 - sr / st else c)"
    by (simp add: fit_r2_def st_def sr_def)
  show ?thesis
  proof (cases "st > 1 / 10 ^ 10")
    case True
    have "(0 :: real) < 1 / 10 ^ 10" by simp
    with True have "0 < st" by linarith
    then have "0 \<le> sr / st" using sr by simp
    then show ?thesis using True eq by simp
  next
    case False
    then show ?thesis using assms eq by simp
  qed
qed

lemma fit_ok:
  assumes "x \<noteq> []" "length x \<le> length y"
  shows "fit x y =
     (let mx = sum_list x / real (length x); my = sum_list y / real (length y);
          num = (\<Sum>i\<leftarrow>[0..<length x]. (x ! i - mx) * (y ! i - my));
          den = (\<Sum>i\<leftarrow>[0..<length x]. (x ! i - mx) ^ 2);
          a = (if \<bar>den\<bar> > 1 / 10 ^ 10 then num / den else 0);
          b = my - a * mx
      in Inr (a, b, fit_r2 y (map (\<lambda>xi. a * xi + b) x) my (5 / 10)))"
proof -
  from assms have "y \<noteq> []" by auto
  with assms show ?thesis
    unfolding fit_def and_then_def py_div_def fit_r2_def Let_def
    by (simp del: max.bounded_iff)
qed

lemma fit_fail:
  assumes "x = [] \<or> length y < length x"
  shows "fit x y = Inl (if x = [] \<or> y = [] then ZeroDivisionError else IndexError)"
  using assms unfolding fit_def and_then_def py_div_def Let_def
  by (auto simp del: max.bounded_iff)

lemma fit_Inr_valid:
  assumes "fit x y = Inr v"
  shows "x \<noteq> [] \<and> length x \<le> length y"
proof (rule ccontr)
  assume "\<not> (x \<noteq> [] \<and> length x \<le> length y)"
  then have "x = [] \<or> length y < length x" by auto
  from fit_fail [OF this] assms show False by simp
qed

lemma fit_range:
  assumes "fit x y = Inr (a, b, q)"
  shows "0 \<le> q \<and> q \<le> 1"
proof -
  from fit_Inr_valid [OF assms] have v: "x \<noteq> []" "length x \<le> length y" by auto
  from assms fit_ok [OF v] obtain pred my where "q = fit_r2 y pred my (5 / 10)"
    by (auto simp: Let_def)
  then show ?thesis using fit_r2_range [of "5 / 10" y pred my] by simp
qed

lemma sum_list_upt_zero:
  assumes "\<And>i. i < n \<Longrightarrow> f i = (0 :: real)"
  shows "(\<Sum>i\<leftarrow>[0..<n]. f i) = 0"
  using assms by (simp add: interv_sum_list_conv_sum_set_nat)

lemma fit_const:
  assumes "0 < n" "length x = n"
  shows "fit x (replicate n c) = Inr (0, c, 1 / 2)"
proof -
  have my: "sum_list (replicate n c) / real n = c"
    using assms by (simp add: sum_list_replicate)
  have num: "(\<Sum>i\<leftarrow>[0..<n]. (x ! i - mx) * (replicate n c ! i - my)) = 0" if "my = c" for mx my
    by (rule sum_list_upt_zero) (simp add: that)
  have tot: "(\<Sum>yi\<leftarrow>replicate n c. (yi - my) ^ 2) = 0" if "my = c" for my
    by (simp add: sum_list_replicate that)
  have "x \<noteq> []" "length x \<le> length (replicate n c)" using assms by auto
  from fit_ok [OF this] have
    "fit x (replicate n c) =
     (let mx = sum_list x / real n; my = sum_list (replicate n c) / real n;
          num = (\<Sum>i\<leftarrow>[0..<n]. (x ! i - mx) * (replicate n c ! i - my));
          den = (\<Sum>i\<leftarrow>[0..<n]. (x ! i - mx) ^ 2);
          a = (if \<bar>den\<bar> > 1 / 10 ^ 10 then num / den else 0);
          b = my - a * mx
      in Inr (a, b, fit_r2 (replicate n c) (map (\<lambda>xi. a * xi + b) x) my (5 / 10)))"
    using assms(2) by simp
  also have "\<dots> = Inr (0, c, 1 / 2)"
    unfolding Let_def my num [OF refl] fit_r2_def tot [OF refl]
    by simp
  finally show ?thesis .
qed

section \<open>Properties of the candidates and of the selection\<close>

lemma length_diffs: "length (diffs v) = length v - 1"
  by (simp add: diffs_def)

lemma quad_fit_none: "\<not> length y > 2 \<Longrightarrow> quad_fit x y = Inr None"
  by (simp add: quad_fit_def)

lemma py_first_nonempty: "xs \<noteq> [] \<Longrightarrow> py_first xs = Inr (xs ! 0)"
  by (cases xs) (auto simp: py_first_def)

lemma quad_fit_ok:
  assumes "length y > 2"
  shows "quad_fit x y =
     (let d1 = diffs y; d2 = diffs d1;
          aq = sum_list d2 / (2 * real (length d2));
          bq = d1 ! 0 - aq;
          cq = y ! 0;
          pred = map (\<lambda>i. aq * i * i + bq * i + cq) x;
          my = sum_list y / real (length y)
      in Inr (Some [(''r2'', fit_r2 y pred my (3 / 10)), (''a'', aq), (''b'', bq), (''c'', cq)]))"
proof -
  have d1: "diffs y \<noteq> []" using assms length_diffs [of y] by (cases "diffs y") auto
  have "length (diffs (diffs y)) = length y - 2" by (simp add: length_diffs)
  then have d2: "diffs (diffs y) \<noteq> []" using assms by (cases "diffs (diffs y)") auto
  have y: "y \<noteq> []" using assms by auto
  show ?thesis
    unfolding quad_fit_def and_then_def py_div_def Let_def fit_r2_def
    using assms d1 d2 y
    by (simp add: py_first_nonempty del: max.bounded_iff)
qed

lemma map_result_log:
  "list_all (\<lambda>yi. yi > 0) y \<Longrightarrow> map_result py_log y = Inr (map ln y)"
  by (induction y) (auto simp: py_log_def)

lemma exp_fit_none: "\<not> list_all (\<lambda>yi. yi > 0) y \<Longrightarrow> exp_fit x y = Inr None"
  by (simp add: exp_fit_def)

lemma exp_fit_pos:
  assumes "list_all (\<lambda>yi. yi > 0) y"
  shows "exp_fit x y =
    (case fit x (map ln y) of Inl e \<Rightarrow> Inl e
     | Inr (ae, be, r_e) \<Rightarrow> Inr (Some [(''r2'', r_e), (''a'', exp be), (''b'', ae)]))"
  using assms
  by (simp add: exp_fit_def map_result_log and_then_def split: sum.splits prod.splits)

lemma fit_cases:
  obtains (fail) e where "fit x y = Inl e" "x = [] \<or> length y < length x"
  | (ok) a b q where "fit x y = Inr (a, b, q)" "0 \<le> q" "q \<le> 1"
proof (cases "fit x y")
  case (Inl e)
  have "x = [] \<or> length y < length x"
  proof (rule ccontr)
    assume "\<not> (x = [] \<or> length y < length x)"
    then have "x \<noteq> []" "length x \<le> length y" by auto
    from fit_ok [OF this] Inl show False by (simp add: Let_def)
  qed
  with Inl show ?thesis by (rule fail)
next
  case (Inr v)
  obtain a b q where v: "v = (a, b, q)" by (cases v)
  with Inr fit_range [of x y a b q] show ?thesis by (auto intro: ok)
qed

lemma exp_fit_pos_cases:
  assumes "list_all (\<lambda>yi. yi > 0) y"
  shows "(\<exists>e. exp_fit x y = Inl e) \<or> (\<exists>q. exp_fit x y = Inr (Some q))"
  using assms by (cases "fit x (map ln y)") (auto simp: exp_fit_pos)

lemma analyze_res_eq:
  "analyze_res y =
     [(''LINEAR'', lin_entry y)]
     @ (if length y > 2 then [(''QUAD'', quad_entry y)] else [])
     @ (if list_all (\<lambda>yi. yi > 0) y then [(''EXP'', exp_entry y)] else [])"
proof -
  let ?x = "map real [0..<length y]"
  have l: "(case fit ?x y of
              Inr (a, b, q) \<Rightarrow> dict_set [] ''LINEAR'' [(''r2'', q), (''a'', a), (''b'', b)]
            | Inl e \<Rightarrow> dict_set [] ''LINEAR'' [(''r2'', - 1)]) = [(''LINEAR'', lin_entry y)]"
    by (auto simp: lin_entry_def split: sum.splits)
  have q: "(case quad_fit ?x y of
              Inr (Some q) \<Rightarrow> dict_set [(''LINEAR'', l)] ''QUAD'' q
            | Inr None \<Rightarrow> [(''LINEAR'', l)]
            | Inl e \<Rightarrow> dict_set [(''LINEAR'', l)] ''QUAD'' [(''r2'', - 1)])
           = [(''LINEAR'', l)] @ (if length y > 2 then [(''QUAD'', quad_entry y)] else [])" for l
  proof (cases "length y > 2")
    case True
    from quad_fit_ok [OF this, of ?x] show ?thesis
      using True by (simp add: quad_entry_def Let_def)
  next
    case False
    then show ?thesis by (simp add: quad_fit_none)
  qed
  have e: "(case exp_fit ?x y of
              Inr (Some q) \<Rightarrow> dict_set ([(''LINEAR'', l)] @ qs) ''EXP'' q
            | Inr None \<Rightarrow> [(''LINEAR'', l)] @ qs
            | Inl e \<Rightarrow> dict_set ([(''LINEAR'', l)] @ qs) ''EXP'' [(''r2'', - 1)])
           = [(''LINEAR'', l)] @ qs @ (if list_all (\<lambda>yi. yi > 0) y then [(''EXP'', exp_entry y)] else [])"
    if "qs = [] \<or> (\<exists>w. qs = [(''QUAD'', w)])" for l qs
  proof (cases "list_all (\<lambda>yi. yi > 0) y")
    case True
    from exp_fit_pos_cases [OF this, of ?x] that show ?thesis
      using True by (auto simp: exp_entry_def)
  next
    case False
    then show ?thesis by (simp add: exp_fit_none)
  qed
  show ?thesis
    unfolding analyze_res_def Let_def l q
    by (subst e) auto
qed

lemma max_loop_first_max:
  assumes "i < length pre" "pre ! i = best"
    and "\<forall>j < length pre. key (pre ! j) \<le> key best"
    and "\<forall>j < i. key (pre ! j) < key best"
  shows "\<exists>k < length (pre @ vs). (pre @ vs) ! k = max_loop key best vs
           \<and> (\<forall>j < length (pre @ vs). key ((pre @ vs) ! j) \<le> key (max_loop key best vs))
           \<and> (\<forall>j < k. key ((pre @ vs) ! j) < key (max_loop key best vs))"
  using assms
proof (induction vs arbitrary: pre best i)
  case Nil
  then show ?case by auto
next
  case (Cons v vs)
  show ?case
  proof (cases "key v > key best")
    case True
    have "\<exists>k < length ((pre @ [v]) @ vs). ((pre @ [v]) @ vs) ! k = max_loop key v vs
           \<and> (\<forall>j < length ((pre @ [v]) @ vs). key (((pre @ [v]) @ vs) ! j) \<le> key (max_loop key v vs))
           \<and> (\<forall>j < k. key (((pre @ [v]) @ vs) ! j) < key (max_loop key v vs))"
    proof (rule Cons.IH [of "length pre"])
      show "length pre < length (pre @ [v])" by simp
      show "(pre @ [v]) ! length pre = v" by simp
      show "\<forall>j<length (pre @ [v]). key ((pre @ [v]) ! j) \<le> key v"
        using Cons.prems(3) True by (auto simp: nth_append less_Suc_eq)
      show "\<forall>j<length pre. key ((pre @ [v]) ! j) < key v"
        using Cons.prems(3) True by (auto simp: nth_append)
    qed
    then show ?thesis using True by simp
  next
    case False
    have "\<exists>k < length ((pre @ [v]) @ vs). ((pre @ [v]) @ vs) ! k = max_loop key best vs
           \<and> (\<forall>j < length ((pre @ [v]) @ vs). key (((pre @ [v]) @ vs) ! j) \<le> key (max_loop key best vs))
           \<and> (\<forall>j < k. key (((pre @ [v]) @ vs) ! j) < key (max_loop key best vs))"
    proof (rule Cons.IH [of i])
      show "i < length (pre @ [v])" using Cons.prems(1) by simp
      show "(pre @ [v]) ! i = best" using Cons.prems(1,2) by (simp add: nth_append)
      show "\<forall>j<length (pre @ [v]). key ((pre @ [v]) ! j) \<le> key best"
        using Cons.prems(3) False by (auto simp: nth_append less_Suc_eq)
      show "\<forall>j<i. key ((pre @ [v]) ! j) < key best"
        using Cons.prems(1,4) by (auto simp: nth_append)
    qed
    then show ?thesis using False by simp
  qed
qed

lemma py_max_key_first_max:
  assumes "xs \<noteq> []"
  shows "\<exists>best k. py_max_key key xs = Inr best \<and> k < length xs \<and> xs ! k = best
           \<and> (\<forall>j < length xs. key (xs ! j) \<le> key best)
           \<and> (\<forall>j < k. key (xs ! j) < key best)"
proof -
  obtain v vs where xs: "xs = v # vs" using assms by (cases xs) auto
  have "\<exists>k < length ([v] @ vs). ([v] @ vs) ! k = max_loop key v vs
           \<and> (\<forall>j < length ([v] @ vs). key (([v] @ vs) ! j) \<le> key (max_loop key v vs))
           \<and> (\<forall>j < k. key (([v] @ vs) ! j) < key (max_loop key v vs))"
    by (rule max_loop_first_max [of 0]) auto
  then show ?thesis by (simp add: py_max_key_def xs)
qed

lemma lin_entry_score:
  "(\<exists>e. fit (map real [0..<length y]) y = Inl e) \<and> lin_entry y = [(''r2'', - 1)]
   \<or> (\<exists>a b q. fit (map real [0..<length y]) y = Inr (a, b, q)
        \<and> lin_entry y = [(''r2'', q), (''a'', a), (''b'', b)] \<and> 0 \<le> q \<and> q \<le> 1)"
  by (rule fit_cases [of "map real [0..<length y]" y]) (auto simp: lin_entry_def)

lemma quad_entry_score:
  assumes "length y > 2"
  shows "\<exists>q a b c. quad_fit (map real [0..<length y]) y
            = Inr (Some [(''r2'', q), (''a'', a), (''b'', b), (''c'', c)])
          \<and> quad_entry y = [(''r2'', q), (''a'', a), (''b'', b), (''c'', c)] \<and> 0 \<le> q \<and> q \<le> 1"
  using quad_fit_ok [OF assms, of "map real [0..<length y]"] fit_r2_range [of "3 / 10"]
  by (simp add: quad_entry_def Let_def)

lemma exp_entry_score:
  assumes "list_all (\<lambda>yi. yi > 0) y"
  shows "(\<exists>e. exp_fit (map real [0..<length y]) y = Inl e) \<and> exp_entry y = [(''r2'', - 1)]
   \<or> (\<exists>q a b. exp_fit (map real [0..<length y]) y = Inr (Some [(''r2'', q), (''a'', a), (''b'', b)])
        \<and> exp_entry y = [(''r2'', q), (''a'', a), (''b'', b)] \<and> 0 \<le> q \<and> q \<le> 1)"
proof (cases "fit (map real [0..<length y]) (map ln y)")
  case (Inl e)
  then show ?thesis by (simp add: exp_entry_def exp_fit_pos [OF assms])
next
  case (Inr v)
  obtain a b q where v: "v = (a, b, q)" by (cases v)
  from Inr v fit_range [of "map real [0..<length y]" "map ln y" a b q]
  show ?thesis by (simp add: exp_entry_def exp_fit_pos [OF assms])
qed

lemma analyze_res_entry:
  assumes "kv \<in> set (analyze_res y)"
  shows "snd kv = [(''r2'', - 1)]
         \<or> (\<exists>q rest. snd kv = (''r2'', q) # rest \<and> rest \<noteq> [] \<and> 0 \<le> q \<and> q \<le> 1)"
proof -
  from assms consider "kv = (''LINEAR'', lin_entry y)"
    | "length y > 2" "kv = (''QUAD'', quad_entry y)"
    | "list_all (\<lambda>yi. yi > 0) y" "kv = (''EXP'', exp_entry y)"
    by (auto simp: analyze_res_eq split: if_splits)
  then show ?thesis
  proof cases
    case 1
    then show ?thesis using lin_entry_score [of y] by auto
  next
    case 2
    then show ?thesis using quad_entry_score [of y] by auto
  next
    case 3
    then show ?thesis using exp_entry_score [of y] by auto
  qed
qed

text \<open>
  C9: every candidate that \<^verbatim>\<open>analyze\<close> records is either the failure record \<^verbatim>\<open>{'r2': -1}\<close> or
  carries a score between 0 and 1: the score is floored at 0, and it cannot exceed 1
  because the residual sum of squares is not negative and the two constants for the
  degenerate variance are 0.5 and 0.3.
\<close>

theorem candidate_scores_in_unit_interval:
  "kv \<in> set (analyze_res y) \<Longrightarrow> snd kv \<noteq> [(''r2'', - 1)] \<Longrightarrow> 0 \<le> score kv \<and> score kv \<le> 1"
  using analyze_res_entry [of kv y] by (auto simp: score_def dict_get_def)

lemma fit_124: "fit [0, 1, 2] [1, 2, 4] = Inr (3 / 2, 5 / 6, 27 / 28)"
  by (simp add: fit_def and_then_def py_div_def Let_def upt_rec power2_eq_square)

lemma upt3: "[0..<3] = [0, 1, 2]"
  by (simp add: upt_rec)

theorem candidate_scores_in_unit_interval_witness:
  "(''LINEAR'', [(''r2'', 27 / 28), (''a'', 3 / 2), (''b'', 5 / 6)]) \<in> set (analyze_res [1, 2, 4])
   \<and> [(''r2'', 27 / 28), (''a'', 3 / 2), (''b'', 5 / 6)] \<noteq> [(''r2'', - 1 :: real)]
   \<and> 0 \<le> score (''LINEAR'', [(''r2'', 27 / 28), (''a'', 3 / 2), (''b'', 5 / 6)])
   \<and> score (''LINEAR'', [(''r2'', 27 / 28), (''a'', 3 / 2), (''b'', 5 / 6)]) \<le> 1"
proof -
  have mem: "(''LINEAR'', [(''r2'', 27 / 28), (''a'', 3 / 2), (''b'', 5 / 6)])
               \<in> set (analyze_res [1, 2, 4])"
    by (simp add: analyze_res_eq lin_entry_def upt3 fit_124)
  have ne: "snd (''LINEAR'', [(''r2'', 27 / 28), (''a'', 3 / 2), (''b'', 5 / 6)])
              \<noteq> [(''r2'', - 1 :: real)]"
    by simp
  from candidate_scores_in_unit_interval [OF mem ne] mem show ?thesis by simp
qed

text \<open>
  The exact-arithmetic reading of C6: on a constant sequence of length \<open>n > 0\<close>, with
  \<open>x = 0..n-1\<close>, \<^verbatim>\<open>fit\<close> returns slope 0, the constant as intercept and the score 0.5; on
  every valid input (paired sequences of equal length at least 1) \<^verbatim>\<open>fit\<close> returns, and a
  score it returns is never negative. The mean of a constant sequence is the constant
  here; with binary rounding it need not be, and nothing is said about that case.
\<close>

theorem fit_constant_and_floor:
  "(0 < n \<longrightarrow> fit (map real [0..<n]) (replicate n c) = Inr (0, c, 1 / 2))
   \<and> (x \<noteq> [] \<and> length y = length x \<longrightarrow> (\<exists>a b q. fit x y = Inr (a, b, q)))
   \<and> (fit x y = Inr (a, b, q) \<longrightarrow> 0 \<le> q)"
proof (intro conjI impI)
  assume "0 < n"
  then show "fit (map real [0..<n]) (replicate n c) = Inr (0, c, 1 / 2)"
    by (intro fit_const) auto
next
  assume "x \<noteq> [] \<and> length y = length x"
  then have "x \<noteq> []" "length x \<le> length y" by auto
  from fit_ok [OF this] show "\<exists>a b q. fit x y = Inr (a, b, q)" by (simp add: Let_def)
next
  assume "fit x y = Inr (a, b, q)"
  then show "0 \<le> q" using fit_range by blast
qed

theorem fit_constant_and_floor_witness:
  "fit (map real [0..<3]) (replicate 3 5) = Inr (0, 5, 1 / 2)
   \<and> (\<exists>a b q. fit [0, 1, 2] [1, 2, 4] = Inr (a, b, q))
   \<and> fit [0, 1, 2] [1, 2, 4] = Inr (3 / 2, 5 / 6, 27 / 28) \<and> (0 :: real) \<le> 27 / 28"
  using fit_constant_and_floor [of 3 5 "[0, 1, 2]" "[1, 2, 4]" "3 / 2" "5 / 6" "27 / 28"] fit_124
  by simp

lemma analyze_res_nonempty: "analyze_res y \<noteq> []"
  by (simp add: analyze_res_eq)







section \<open>The doubling sequence\<close>

lemma upt6: "[0..<6] = [0, 1, 2, 3, 4, 5]"
  by (simp add: upt_rec)

lemma ln2_ge_half: "1 / 2 \<le> ln (2 :: real)"
proof -
  have "ln (1 / 2 :: real) \<le> 1 / 2 - 1" by (rule ln_le_minus_one) simp
  moreover have "ln (1 / 2 :: real) = - ln 2" by (simp add: ln_div)
  ultimately show ?thesis by simp
qed

lemma ln_powers_of_two:
  "ln (4 :: real) = 2 * ln 2" "ln (8 :: real) = 3 * ln 2"
  "ln (16 :: real) = 4 * ln 2" "ln (32 :: real) = 5 * ln 2"
  using ln_realpow [of "2 :: real" 2] ln_realpow [of "2 :: real" 3]
    ln_realpow [of "2 :: real" 4] ln_realpow [of "2 :: real" 5]
  by simp_all

lemma fit_doubling:
  "fit [0, 1, 2, 3, 4, 5] [1, 2, 4, 8, 16, 32] = Inr (201 / 35, - (27 / 7), 201 / 245)"
  by (simp add: fit_def and_then_def py_div_def Let_def upt_rec power2_eq_square)

lemma quad_fit_doubling:
  "quad_fit [0, 1, 2, 3, 4, 5] [1, 2, 4, 8, 16, 32]
     = Inr (Some [(''r2'', 433 / 804), (''a'', 15 / 8), (''b'', - (7 / 8)), (''c'', 1)])"
  by (simp add: quad_fit_def diffs_def and_then_def py_div_def py_first_def Let_def upt_rec
      power2_eq_square)

lemma fit_log_doubling:
  "fit [0, 1, 2, 3, 4, 5] [0, L, 2 * L, 3 * L, 4 * L, 5 * L] = Inr (L, 0, 1)" if "1 / 2 \<le> L"
proof -
  have tot: "1 / 10 ^ 10 < (35 / 2) * L\<^sup>2"
  proof -
    have "(1 / 2)\<^sup>2 \<le> L\<^sup>2" using that by (intro power_mono) auto
    then show ?thesis by (simp add: power2_eq_square)
  qed
  have "fit [0, 1, 2, 3, 4, 5] [0, L, 2 * L, 3 * L, 4 * L, 5 * L] =
          Inr (L, 0, max 0 (if 1 / 10 ^ 10 < (35 / 2) * L\<^sup>2 then 1 else 5 / 10))"
    apply (simp add: fit_def and_then_def py_div_def Let_def upt_rec del: max.bounded_iff)
    apply (simp add: power2_eq_square algebra_simps del: max.bounded_iff)
    done
  then show ?thesis using tot by simp
qed

lemma exp_fit_doubling:
  "exp_fit [0, 1, 2, 3, 4, 5] [1, 2, 4, 8, 16, 32]
     = Inr (Some [(''r2'', 1), (''a'', 1), (''b'', ln 2)])"
proof -
  have "list_all (\<lambda>yi. yi > 0) [1, 2, 4, 8, 16, 32 :: real]" by simp
  from exp_fit_pos [OF this, of "[0, 1, 2, 3, 4, 5]"]
  show ?thesis
    using fit_log_doubling [OF ln2_ge_half] by (simp add: ln_powers_of_two)
qed

lemma analyze_res_doubling:
  "analyze_res [1, 2, 4, 8, 16, 32] =
     [(''LINEAR'', [(''r2'', 201 / 245), (''a'', 201 / 35), (''b'', - (27 / 7))]),
      (''QUAD'', [(''r2'', 433 / 804), (''a'', 15 / 8), (''b'', - (7 / 8)), (''c'', 1)]),
      (''EXP'', [(''r2'', 1), (''a'', 1), (''b'', ln 2)])]"
proof -
  have x: "map real [0..<length [1, 2, 4, 8, 16, 32 :: real]] = [0, 1, 2, 3, 4, 5]"
    by (simp add: upt6)
  show ?thesis
    unfolding analyze_res_def x Let_def fit_doubling quad_fit_doubling exp_fit_doubling
    by simp
qed

text \<open>
  C8: on \<open>[1, 2, 4, 8, 16, 32]\<close>, \<^verbatim>\<open>analyze\<close> selects EXP with amplitude 1, rate \<open>ln 2\<close> and
  score 1; the scores of LINEAR and QUAD are \<open>201/245\<close> and \<open>433/804\<close>, both below 1.
\<close>

theorem analyze_doubling_selects_exp:
  "analyze [1, 2, 4, 8, 16, 32]
     = Inr \<lparr>pat_t = ''EXP'', pat_r = 1, pat_p = [(''r2'', 1), (''a'', 1), (''b'', ln 2)]\<rparr>
   \<and> map (\<lambda>kv. (fst kv, score kv)) (analyze_res [1, 2, 4, 8, 16, 32])
       = [(''LINEAR'', 201 / 245), (''QUAD'', 433 / 804), (''EXP'', 1)]"
  by (simp add: analyze_def analyze_res_doubling py_max_key_def score_def dict_get_def
      and_then_def)

section \<open>Properties of the anomaly detector\<close>



















section \<open>Properties of the batch processor\<close>

lemma clean_nonempty: "fst (clean d) \<noteq> []"
  by (simp add: clean_def split: prod.splits)

lemma analyze_returns: "\<exists>pat. analyze y = Inr pat"
proof -
  from py_max_key_first_max [OF analyze_res_nonempty, of score y]
  obtain b where "py_max_key score (analyze_res y) = Inr b" by blast
  then show ?thesis by (simp add: analyze_def and_then_def)
qed

lemma proc_ok:
  assumes "clean batch = (cl, ic)" "analyze cl = Inr pat"
  shows "proc batch b ip =
    Inr (Some
      \<lparr>bid = b, total = int (length batch), valid = int (length cl),
       invalid_parse = ip, invalid_clean = ic, total_invalid = ip + ic,
       mean = sum_list cl / real (length cl),
       std = sqrt ((\<Sum>x\<leftarrow>cl. (x - sum_list cl / real (length cl)) ^ 2) / real (length cl)),
       minimum = fold min (tl cl) (hd cl), maximum = fold max (tl cl) (hd cl),
       median = sort cl ! (length cl div 2),
       range_s = fold max (tl cl) (hd cl) - fold min (tl cl) (hd cl),
       cv = (if sum_list cl / real (length cl) \<noteq> 0
             then sqrt ((\<Sum>x\<leftarrow>cl. (x - sum_list cl / real (length cl)) ^ 2) / real (length cl))
                  / (sum_list cl / real (length cl)) * 100
             else 0),
       type_s = pat_t pat, r2 = pat_r pat, params = pat_p pat,
       anom_c = fst (anom cl), danger = fst (snd (anom cl)),
       anom_details = snd (snd (anom cl))\<rparr>)"
proof -
  have ne: "cl \<noteq> []" using clean_nonempty [of batch] assms(1) by simp
  then obtain v vs where cl: "cl = v # vs" by (cases cl) auto
  have n: "real (length cl) \<noteq> 0" using ne by simp
  have var: "\<not> (\<Sum>x\<leftarrow>cl. (x - m) ^ 2) / real (length cl) < 0" for m
  proof -
    have "0 \<le> (\<Sum>x\<leftarrow>cl. (x - m) ^ 2)" by (rule sum_list_nonneg) auto
    then have "0 \<le> (\<Sum>x\<leftarrow>cl. (x - m) ^ 2) / real (length cl)" by simp
    then show ?thesis by simp
  qed
  have mn: "py_min cl = Inr (fold min (tl cl) (hd cl))" "py_max cl = Inr (fold max (tl cl) (hd cl))"
    by (simp_all add: py_min_def py_max_def cl)
  have ix: "py_index (sort cl) (length cl div 2) = Inr (sort cl ! (length cl div 2))"
    using ne by (simp add: py_index_def)
  obtain ac dg ad where an: "anom cl = (ac, dg, ad)" by (cases "anom cl") auto
  show ?thesis
    unfolding proc_def assms(1) and_then_def py_div_def py_sqrt_def
    using ne n var
    by (simp add: assms(2) mn ix an)
qed

lemma proc_returns_summary: "\<exists>s. proc batch b ip = Inr (Some s)"
proof -
  obtain cl ic where c: "clean batch = (cl, ic)" by (cases "clean batch") auto
  obtain pat where a: "analyze cl = Inr pat" using analyze_returns by blast
  from proc_ok [OF c a] show ?thesis by blast
qed

lemma clean_too_large: "clean [Fin (10 ^ 16)] = ([0], 1)"
  by (simp add: clean_def)

lemma analyze_zero:
  "analyze [0] = Inr \<lparr>pat_t = ''LINEAR'', pat_r = 1 / 2,
                       pat_p = [(''r2'', 1 / 2), (''a'', 0), (''b'', 0)]\<rparr>"
  by (simp add: analyze_def analyze_res_def fit_def quad_fit_def exp_fit_def py_max_key_def
      score_def dict_get_def and_then_def py_div_def Let_def)

lemma anom_single: "anom [v] = (0, ''LOW'', [])"
  by (simp add: anom_def anom_body_def)

text \<open>
  C1 on the code: a batch whose only value is \<open>1e16\<close> loses it to the cleaner, yet
  \<^verbatim>\<open>proc\<close> returns a summary, computed on the sentinel \<open>[0]\<close> and counting it as one valid
  point. The cleaner never returns an empty sequence, so the test \<^verbatim>\<open>if not clean\<close> never
  holds.
\<close>

theorem proc_all_removed_batch:
  "fst (clean_loop [Fin (10 ^ 16)] [] 0) = []
   \<and> proc [Fin (10 ^ 16)] 1 0 =
     Inr (Some
       \<lparr>bid = 1, total = 1, valid = 1, invalid_parse = 0, invalid_clean = 1, total_invalid = 1,
        mean = 0, std = 0, minimum = 0, maximum = 0, median = 0, range_s = 0, cv = 0,
        type_s = ''LINEAR'', r2 = 1 / 2, params = [(''r2'', 1 / 2), (''a'', 0), (''b'', 0)],
        anom_c = 0, danger = ''LOW'', anom_details = []\<rparr>)"
  using proc_ok [OF clean_too_large analyze_zero, of 1 0]
  by (simp add: anom_single)

text \<open>
  C10: \<^verbatim>\<open>proc\<close> always returns a summary, and its median is the element at index
  \<open>n div 2\<close> of the sorted cleaned values, \<open>n\<close> being their number. For even \<open>n\<close> this is the
  upper of the two middle elements, at indices \<open>n div 2 - 1\<close> and \<open>n div 2\<close>; for odd \<open>n\<close>
  it is the middle element, with as many elements before it as after it.
\<close>

theorem proc_median_upper_middle:
  "\<exists>s. proc batch b ip = Inr (Some s)
     \<and> median s = sort (fst (clean batch)) ! (length (fst (clean batch)) div 2)
     \<and> (even (length (fst (clean batch))) \<longrightarrow>
          length (fst (clean batch)) div 2 - 1 < length (fst (clean batch)) div 2
          \<and> sort (fst (clean batch)) ! (length (fst (clean batch)) div 2 - 1) \<le> median s)
     \<and> (odd (length (fst (clean batch))) \<longrightarrow>
          length (take (length (fst (clean batch)) div 2) (sort (fst (clean batch))))
          = length (drop (length (fst (clean batch)) div 2 + 1) (sort (fst (clean batch)))))"
proof -
  obtain cl ic where c: "clean batch = (cl, ic)" by (cases "clean batch") auto
  obtain pat where a: "analyze cl = Inr pat" using analyze_returns by blast
  have ne: "cl \<noteq> []" using clean_nonempty [of batch] c by simp
  let ?n = "length cl"
  have ev: "?n div 2 - 1 < ?n div 2 \<and> sort cl ! (?n div 2 - 1) \<le> sort cl ! (?n div 2)"
    if "even ?n"
  proof -
    from that ne have pos: "0 < ?n div 2" by (cases cl) auto
    have "sorted (sort cl)" by simp
    moreover have "?n div 2 - 1 \<le> ?n div 2" by simp
    moreover have "?n div 2 < length (sort cl)" using ne by simp
    ultimately have "sort cl ! (?n div 2 - 1) \<le> sort cl ! (?n div 2)"
      by (rule sorted_nth_mono)
    with pos show ?thesis by simp
  qed
  have od: "length (take (?n div 2) (sort cl)) = length (drop (?n div 2 + 1) (sort cl))"
    if "odd ?n"
    using that by (auto elim!: oddE)
  from proc_ok [OF c a, of b ip] ev od show ?thesis
    by (simp add: c)
qed

theorem proc_median_upper_middle_witness:
  "fst (clean [Fin 4, Fin 1, Fin 3, Fin 2]) = [4, 1, 3, 2]
   \<and> even (length (fst (clean [Fin 4, Fin 1, Fin 3, Fin 2])))
   \<and> (\<exists>s. proc [Fin 4, Fin 1, Fin 3, Fin 2] 1 0 = Inr (Some s) \<and> median s = 3)"
proof -
  have c: "clean [Fin 4, Fin 1, Fin 3, Fin 2] = ([4, 1, 3, 2], 0)"
    by (simp add: clean_def)
  have s: "sort [4, 1, 3, 2 :: real] ! 2 = 3" by simp
  from proc_median_upper_middle [of "[Fin 4, Fin 1, Fin 3, Fin 2]" 1 0] c s
  show ?thesis by auto
qed

section \<open>Properties of the tokenizer\<close>

lemma parse_loop_counts:
  "parse_loop to_float parts vals k = Inr (vals', k')
   \<Longrightarrow> int (length vals') + k' = int (length vals) + k + int (length parts)"
proof (induction parts arbitrary: vals k)
  case Nil
  then show ?case by simp
next
  case (Cons p0 parts)
  show ?case
  proof (cases "strip p0 = [] \<or> upper (strip p0) \<in> set [''NULL'', ''NA'', ''NAN'', ''NONE'', ''N/A'', ''-'']")
    case True
    with Cons.prems have "parse_loop to_float parts vals (k + 1) = Inr (vals', k')"
      by (auto simp: Let_def split: if_splits)
    from Cons.IH [OF this] show ?thesis by simp
  next
    case False
    then have step: "parse_loop to_float (p0 # parts) vals k =
        (case to_float (strip p0) of
              Inr (Fin v) \<Rightarrow> parse_loop to_float parts (vals @ [v]) k
            | Inr _ \<Rightarrow> parse_loop to_float parts vals (k + 1)
            | Inl ValueError \<Rightarrow> parse_loop to_float parts vals (k + 1)
            | Inl e \<Rightarrow> Inl e)"
      by (simp add: Let_def)
    show ?thesis
    proof (cases "to_float (strip p0)")
      case (Inl e)
      with step Cons.prems have "parse_loop to_float parts vals (k + 1) = Inr (vals', k')"
        by (cases e) auto
      from Cons.IH [OF this] show ?thesis by simp
    next
      case (Inr f)
      show ?thesis
      proof (cases f)
        case (Fin v)
        with step Inr Cons.prems have "parse_loop to_float parts (vals @ [v]) k = Inr (vals', k')"
          by simp
        from Cons.IH [OF this] show ?thesis by simp
      next
        case PInf
        with step Inr Cons.prems have "parse_loop to_float parts vals (k + 1) = Inr (vals', k')"
          by simp
        from Cons.IH [OF this] show ?thesis by simp
      next
        case NInf
        with step Inr Cons.prems have "parse_loop to_float parts vals (k + 1) = Inr (vals', k')"
          by simp
        from Cons.IH [OF this] show ?thesis by simp
      next
        case NaN
        with step Inr Cons.prems have "parse_loop to_float parts vals (k + 1) = Inr (vals', k')"
          by simp
        from Cons.IH [OF this] show ?thesis by simp
      qed
    qed
  qed
qed

lemma parse_body_counts:
  assumes "parse_body to_float raw = Inr (vals, k)"
  shows "int (length vals) + k = int (length (tokens raw))"
  using parse_loop_counts [of to_float "tokens raw" "[]" 0 vals k] assms
  by (simp add: parse_body_def tokens_def Let_def)

text \<open>
  C7: \<^verbatim>\<open>parse\<close> returns on every text and for every behaviour of \<^verbatim>\<open>float\<close>, and never an
  empty sequence. When the body raises, the result is \<open>([0], 1)\<close>. When the body ends with
  no sample accepted, the result is \<open>[0]\<close> with the count of rejected tokens, which is
  then the number of tokens. Otherwise the accepted samples and the count are returned.
\<close>

theorem parse_never_raises:
  "fst (parse to_float raw) \<noteq> []
   \<and> (parse_body to_float raw = Inl e \<longrightarrow> parse to_float raw = ([0], 1))
   \<and> (parse_body to_float raw = Inr ([], k) \<longrightarrow>
        parse to_float raw = ([0], k) \<and> k = int (length (tokens raw)))
   \<and> (parse_body to_float raw = Inr (vals, k) \<and> vals \<noteq> [] \<longrightarrow>
        parse to_float raw = (vals, k))"
proof (intro conjI impI)
  show "fst (parse to_float raw) \<noteq> []"
    by (simp add: parse_def split: sum.splits prod.splits)
next
  assume "parse_body to_float raw = Inl e"
  then show "parse to_float raw = ([0], 1)" by (simp add: parse_def)
next
  assume b: "parse_body to_float raw = Inr ([], k)"
  then show "parse to_float raw = ([0], k)" by (simp add: parse_def)
  from parse_body_counts [OF b] show "k = int (length (tokens raw))" by simp
next
  assume "parse_body to_float raw = Inr (vals, k) \<and> vals \<noteq> []"
  then show "parse to_float raw = (vals, k)" by (simp add: parse_def)
qed

lemma parse_body_other: "parse_body (\<lambda>s. Inl OtherError) ''1, x'' = Inl OtherError"
  by code_simp

lemma parse_body_rejected: "parse_body (\<lambda>s. Inl ValueError) ''[NaN, x] -'' = Inr ([], 3)"
  by code_simp

lemma parse_body_accepted:
  "parse_body (\<lambda>s. if s = ''2.5'' then Inr (Fin (5 / 2)) else Inl ValueError) ''[NaN, 2.5] -''
     = Inr ([5 / 2], 2)"
  by code_simp

theorem parse_never_raises_witness:
  "parse_body (\<lambda>s. Inl OtherError) ''1, x'' = Inl OtherError
   \<and> parse (\<lambda>s. Inl OtherError) ''1, x'' = ([0], 1)
   \<and> parse_body (\<lambda>s. Inl ValueError) ''[NaN, x] -'' = Inr ([], 3)
   \<and> parse (\<lambda>s. Inl ValueError) ''[NaN, x] -'' = ([0], 3)
   \<and> parse (\<lambda>s. if s = ''2.5'' then Inr (Fin (5 / 2)) else Inl ValueError) ''[NaN, 2.5] -''
       = ([5 / 2], 2)"
  using parse_never_raises [of "\<lambda>s. Inl OtherError" "''1, x''" OtherError 0 "[]"]
    parse_never_raises [of "\<lambda>s. Inl ValueError" "''[NaN, x] -''" OtherError 3 "[]"]
    parse_never_raises [of "\<lambda>s. if s = ''2.5'' then Inr (Fin (5 / 2)) else Inl ValueError"
      "''[NaN, 2.5] -''" OtherError 2 "[5 / 2]"]
    parse_body_other parse_body_rejected parse_body_accepted
  by simp

end
